theory Spec2Isabelle
  imports
    Complex_Main
    "HOL-Library.Word"
    "HOL-Library.Product_Lexorder"
    "HOL-Library.List_Lexorder"
    "HOL-Library.Char_ord"
begin

section \<open>The RPC client (libraries/rpc/rpc\_client.cpp)\<close>

text \<open>
  The client owns a \<open>detail::rpc_client_impl\<close>, which owns a JSON connection. Every
  method of the implementation is one \<open>_json_connection->call<T>(name, args...)\<close>.
  The connection class, \<open>fc::variant\<close> and the blockchain types are declared outside
  the source files, so the variant type and the blockchain types are type parameters
  and the conversions between them are the fields of a record.
\<close>

record 'v rpc_request =
  method_name :: string
  params :: "'v list"

text \<open>
  The remote side of a connection: from the requests sent so far (the last one is the
  request being answered) to the result, \<open>None\<close> when the call raises.
\<close>

type_synonym 'v peer = "'v rpc_request list \<Rightarrow> 'v option"

record 'v json_connection =
  peer :: "'v peer"
  sent :: "'v rpc_request list"

datatype rpc_error =
    Socket_error       \<comment> \<open>\<open>socket->connect_to\<close> threw; logged and rethrown\<close>
  | Null_connection    \<comment> \<open>a call through the empty \<open>_json_connection\<close> pointer\<close>
  | Call_failed        \<comment> \<open>the connection's \<open>call\<close> raised\<close>
  | Bad_cast           \<comment> \<open>the result does not convert to the type asked for\<close>

record ('v, 'addr, 'asset, 'atype, 'txid, 'stx, 'hdr) marshal =
  variant_of_string :: "string \<Rightarrow> 'v"
  variant_of_asset :: "'asset \<Rightarrow> 'v"
  variant_of_asset_type :: "'atype \<Rightarrow> 'v"
  variant_of_txid :: "'txid \<Rightarrow> 'v"
  variant_of_uint32 :: "32 word \<Rightarrow> 'v"
  variant_of_address :: "'addr \<Rightarrow> 'v"
  string_of_address :: "'addr \<Rightarrow> string"
  as_bool :: "'v \<Rightarrow> bool option"
  as_txid :: "'v \<Rightarrow> 'txid option"
  as_asset :: "'v \<Rightarrow> 'asset option"
  as_signed_transaction :: "'v \<Rightarrow> 'stx option"
  as_signed_block_header :: "'v \<Rightarrow> 'hdr option"

text \<open>\<open>fc::path\<close>; \<open>wallet_filename.string()\<close> reads the text of the path.\<close>

datatype path = Path (path_string: string)

record 'v rpc_client_impl =
  json_connection_ptr :: "'v json_connection option"
  json_exec_loop_started :: bool

definition new_rpc_client_impl :: "'v rpc_client_impl" where
  "new_rpc_client_impl = \<lparr>json_connection_ptr = None, json_exec_loop_started = False\<rparr>"

text \<open>One call: the request is written to the connection, the reply is what the peer gives.\<close>

definition call :: "'v json_connection \<Rightarrow> string \<Rightarrow> 'v list \<Rightarrow> 'v option \<times> 'v json_connection" where
  "call c name args =
     (let reqs = sent c @ [\<lparr>method_name = name, params = args\<rparr>]
      in (peer c reqs, c\<lparr>sent := reqs\<rparr>))"

text \<open>\<open>_json_connection->call<T>(name, args...)\<close> on the implementation's state.\<close>

definition call_as ::
  "('v \<Rightarrow> 'a option) \<Rightarrow> 'v rpc_client_impl \<Rightarrow> string \<Rightarrow> 'v list
     \<Rightarrow> (rpc_error + 'a) \<times> 'v rpc_client_impl" where
  "call_as conv s name args =
     (case json_connection_ptr s of
        None \<Rightarrow> (Inl Null_connection, s)
      | Some c \<Rightarrow>
          (case call c name args of
             (reply, c') \<Rightarrow>
               ((case reply of
                   None \<Rightarrow> Inl Call_failed
                 | Some v \<Rightarrow> (case conv v of None \<Rightarrow> Inl Bad_cast | Some x \<Rightarrow> Inr x)),
                s\<lparr>json_connection_ptr := Some c'\<rparr>)))"

text \<open>
  \<open>connect_to\<close>: the socket connects to the endpoint (the network is the parameter
  \<open>net\<close>, \<open>None\<close> where the connection is refused), a fresh JSON connection is built on
  it and its exec loop is started.
\<close>

definition impl_connect_to ::
  "('ep \<Rightarrow> 'v peer option) \<Rightarrow> 'v rpc_client_impl \<Rightarrow> 'ep \<Rightarrow> (rpc_error + unit) \<times> 'v rpc_client_impl" where
  "impl_connect_to net s remote_endpoint =
     (case net remote_endpoint of
        None \<Rightarrow> (Inl Socket_error, s)
      | Some p \<Rightarrow>
          (Inr (), s\<lparr>json_connection_ptr := Some \<lparr>peer = p, sent = []\<rparr>,
                     json_exec_loop_started := True\<rparr>))"

definition impl_login ::
  "('v, 'addr, 'asset, 'atype, 'txid, 'stx, 'hdr) marshal \<Rightarrow> 'v rpc_client_impl
     \<Rightarrow> string \<Rightarrow> string \<Rightarrow> (rpc_error + bool) \<times> 'v rpc_client_impl" where
  "impl_login m s username password =
     call_as (as_bool m) s ''login'' [variant_of_string m username, variant_of_string m password]"

definition impl_transfer ::
  "('v, 'addr, 'asset, 'atype, 'txid, 'stx, 'hdr) marshal \<Rightarrow> 'v rpc_client_impl
     \<Rightarrow> 'asset \<Rightarrow> 'addr \<Rightarrow> (rpc_error + 'txid) \<times> 'v rpc_client_impl" where
  "impl_transfer m s amount address =
     call_as (as_txid m) s ''transfer''
       [variant_of_asset m amount, variant_of_string m (string_of_address m address)]"

definition impl_getbalance ::
  "('v, 'addr, 'asset, 'atype, 'txid, 'stx, 'hdr) marshal \<Rightarrow> 'v rpc_client_impl
     \<Rightarrow> 'atype \<Rightarrow> (rpc_error + 'asset) \<times> 'v rpc_client_impl" where
  "impl_getbalance m s asset_type =
     call_as (as_asset m) s ''getbalance'' [variant_of_asset_type m asset_type]"

definition impl_get_transaction ::
  "('v, 'addr, 'asset, 'atype, 'txid, 'stx, 'hdr) marshal \<Rightarrow> 'v rpc_client_impl
     \<Rightarrow> 'txid \<Rightarrow> (rpc_error + 'stx) \<times> 'v rpc_client_impl" where
  "impl_get_transaction m s trascaction_id =
     call_as (as_signed_transaction m) s ''get_transaction'' [variant_of_txid m trascaction_id]"

definition impl_getblock ::
  "('v, 'addr, 'asset, 'atype, 'txid, 'stx, 'hdr) marshal \<Rightarrow> 'v rpc_client_impl
     \<Rightarrow> 32 word \<Rightarrow> (rpc_error + 'hdr) \<times> 'v rpc_client_impl" where
  "impl_getblock m s block_num =
     call_as (as_signed_block_header m) s ''getblock'' [variant_of_uint32 m block_num]"

text \<open>As in the source, the method name sent by \<open>validateaddress\<close> is \<open>"getblock"\<close>.\<close>

definition impl_validateaddress ::
  "('v, 'addr, 'asset, 'atype, 'txid, 'stx, 'hdr) marshal \<Rightarrow> 'v rpc_client_impl
     \<Rightarrow> 'addr \<Rightarrow> (rpc_error + bool) \<times> 'v rpc_client_impl" where
  "impl_validateaddress m s address =
     call_as (as_bool m) s ''getblock'' [variant_of_address m address]"

definition impl_import_bitcoin_wallet ::
  "('v, 'addr, 'asset, 'atype, 'txid, 'stx, 'hdr) marshal \<Rightarrow> 'v rpc_client_impl
     \<Rightarrow> path \<Rightarrow> string \<Rightarrow> (rpc_error + bool) \<times> 'v rpc_client_impl" where
  "impl_import_bitcoin_wallet m s wallet_filename password =
     call_as (as_bool m) s ''import_bitcoin_wallet''
       [variant_of_string m (path_string wallet_filename), variant_of_string m password]"

text \<open>The public class: \<open>my\<close> points to the implementation it owns.\<close>

record 'v rpc_client =
  my :: "'v rpc_client_impl"

definition new_rpc_client :: "'v rpc_client" where
  "new_rpc_client = \<lparr>my = new_rpc_client_impl\<rparr>"

text \<open>\<open>return my->f(args)\<close>: the result of the implementation, whose new state is kept in \<open>my\<close>.\<close>

definition forward :: "'v rpc_client \<Rightarrow> 'r \<times> 'v rpc_client_impl \<Rightarrow> 'r \<times> 'v rpc_client" where
  "forward c res = (fst res, c\<lparr>my := snd res\<rparr>)"

definition connect_to ::
  "('ep \<Rightarrow> 'v peer option) \<Rightarrow> 'v rpc_client \<Rightarrow> 'ep \<Rightarrow> (rpc_error + unit) \<times> 'v rpc_client" where
  "connect_to net c remote_endpoint = forward c (impl_connect_to net (my c) remote_endpoint)"

definition login ::
  "('v, 'addr, 'asset, 'atype, 'txid, 'stx, 'hdr) marshal \<Rightarrow> 'v rpc_client
     \<Rightarrow> string \<Rightarrow> string \<Rightarrow> (rpc_error + bool) \<times> 'v rpc_client" where
  "login m c username password = forward c (impl_login m (my c) username password)"

definition transfer ::
  "('v, 'addr, 'asset, 'atype, 'txid, 'stx, 'hdr) marshal \<Rightarrow> 'v rpc_client
     \<Rightarrow> 'asset \<Rightarrow> 'addr \<Rightarrow> (rpc_error + 'txid) \<times> 'v rpc_client" where
  "transfer m c amount address = forward c (impl_transfer m (my c) amount address)"

definition getbalance ::
  "('v, 'addr, 'asset, 'atype, 'txid, 'stx, 'hdr) marshal \<Rightarrow> 'v rpc_client
     \<Rightarrow> 'atype \<Rightarrow> (rpc_error + 'asset) \<times> 'v rpc_client" where
  "getbalance m c asset_type = forward c (impl_getbalance m (my c) asset_type)"

definition get_transaction ::
  "('v, 'addr, 'asset, 'atype, 'txid, 'stx, 'hdr) marshal \<Rightarrow> 'v rpc_client
     \<Rightarrow> 'txid \<Rightarrow> (rpc_error + 'stx) \<times> 'v rpc_client" where
  "get_transaction m c trascaction_id = forward c (impl_get_transaction m (my c) trascaction_id)"

definition getblock ::
  "('v, 'addr, 'asset, 'atype, 'txid, 'stx, 'hdr) marshal \<Rightarrow> 'v rpc_client
     \<Rightarrow> 32 word \<Rightarrow> (rpc_error + 'hdr) \<times> 'v rpc_client" where
  "getblock m c block_num = forward c (impl_getblock m (my c) block_num)"

definition validateaddress ::
  "('v, 'addr, 'asset, 'atype, 'txid, 'stx, 'hdr) marshal \<Rightarrow> 'v rpc_client
     \<Rightarrow> 'addr \<Rightarrow> (rpc_error + bool) \<times> 'v rpc_client" where
  "validateaddress m c address = forward c (impl_validateaddress m (my c) address)"

definition import_bitcoin_wallet ::
  "('v, 'addr, 'asset, 'atype, 'txid, 'stx, 'hdr) marshal \<Rightarrow> 'v rpc_client
     \<Rightarrow> path \<Rightarrow> string \<Rightarrow> (rpc_error + bool) \<times> 'v rpc_client" where
  "import_bitcoin_wallet m c wallet_filename password =
     forward c (impl_import_bitcoin_wallet m (my c) wallet_filename password)"

text \<open>
  A concrete setting to run the client in: variants and addresses are strings, a peer
  that knows the address \<open>''BTSaddr1''\<close> and answers \<open>''true''\<close> to a
  \<open>validateaddress\<close> request for it and \<open>''header''\<close> to any \<open>getblock\<close> request.
\<close>

definition text_marshal :: "(string, string, nat, nat, nat, string, string) marshal" where
  "text_marshal =
     \<lparr>variant_of_string = (\<lambda>s. s),
      variant_of_asset = (\<lambda>n. replicate n CHR ''1''),
      variant_of_asset_type = (\<lambda>n. replicate n CHR ''1''),
      variant_of_txid = (\<lambda>n. replicate n CHR ''1''),
      variant_of_uint32 = (\<lambda>w. replicate (unat w) CHR ''1''),
      variant_of_address = (\<lambda>a. a),
      string_of_address = (\<lambda>a. a),
      as_bool = (\<lambda>v. if v = ''true'' then Some True else if v = ''false'' then Some False else None),
      as_txid = (\<lambda>v. Some (length v)),
      as_asset = (\<lambda>v. Some (length v)),
      as_signed_transaction = Some,
      as_signed_block_header = Some\<rparr>"

definition address_book_peer :: "string peer" where
  "address_book_peer reqs =
     (case rev reqs of
        [] \<Rightarrow> None
      | r # _ \<Rightarrow>
          (if method_name r = ''validateaddress''
           then Some (if params r = [''BTSaddr1''] then ''true'' else ''false'')
           else if method_name r = ''getblock'' then Some ''header''
           else None))"

definition connected_client :: "string rpc_client" where
  "connected_client =
     \<lparr>my = \<lparr>json_connection_ptr = Some \<lparr>peer = address_book_peer, sent = []\<rparr>,
            json_exec_loop_started = True\<rparr>\<rparr>"


section \<open>The block producer's schedule (dpos\_block\_producer)\<close>

text \<open>
  The design document gives the time at which a delegate of rank below 100 produces
  its next block:
  \<^verbatim>\<open>
  CURRENT_TIME    = UTC_SEC / BLOCK_INTERVAL
  ROUND_TIME      = (CURRENT_TIME / 100) * 100
  PRODUCE_TIME    = (ROUND_TIME + RANK) * BLOCK_INTERVAL
  If PRODUCE_TIME < CURRENT_TIME then PRODUCE_TIME += 100 * BLOCK_INTERVAL
  \<close>
  Times are natural numbers of seconds and \<open>/\<close> is integer division. A block interval
  of zero has no schedule (\<open>None\<close>).
\<close>

definition current_time :: "nat \<Rightarrow> nat \<Rightarrow> nat" where
  "current_time utc_sec block_interval = utc_sec div block_interval"

definition round_time :: "nat \<Rightarrow> nat \<Rightarrow> nat" where
  "round_time utc_sec block_interval = (current_time utc_sec block_interval div 100) * 100"

definition produce_time :: "nat \<Rightarrow> nat \<Rightarrow> nat \<Rightarrow> nat option" where
  "produce_time block_interval utc_sec rank =
     (if block_interval = 0 then None
      else
        let p = (round_time utc_sec block_interval + rank) * block_interval
        in if p < current_time utc_sec block_interval
           then Some (p + 100 * block_interval)
           else Some p)"

text \<open>
  The same schedule as the specification words it (section 4.4), for comparison: the
  slot of this round is given up for the next round's when its start is not after
  \<open>utc_now\<close>, both taken in seconds.
\<close>

definition produce_time_spec :: "nat \<Rightarrow> nat \<Rightarrow> nat \<Rightarrow> nat option" where
  "produce_time_spec block_interval utc_now r =
     (if block_interval = 0 then None
      else
        let slot_now = utc_now div block_interval;
            round_base = (slot_now div 100) * 100;
            produce_slot = round_base + r;
            produce_slot' = (if produce_slot * block_interval \<le> utc_now
                             then produce_slot + 100 else produce_slot)
        in Some (produce_slot' * block_interval))"


section \<open>The wallet's voting algorithm (dpos\_voting\_algorithm)\<close>

text \<open>
  A delegate identifier is a signed integer: the sign says whether the votes are for or
  against the delegate, and 0 is the identifier of a name that cannot receive votes.
  Every wallet holds its \<open>trusted_delegates\<close>, its \<open>distrusted_delegates\<close> and its
  \<open>observed_delegates\<close>, here each observed delegate with the score the wallet gives it.
  The block chain tracks \<open>ranked_delegates\<close>, the delegates sorted by net votes, best
  first: the rank of a delegate is its position in this array.
\<close>

type_synonym delegate_id = int

record wallet =
  trusted_delegates :: "delegate_id list"
  distrusted_delegates :: "delegate_id list"
  observed_delegates :: "(delegate_id \<times> rat) list"

fun rank_of :: "delegate_id list \<Rightarrow> delegate_id \<Rightarrow> nat option" where
  "rank_of [] d = None"
| "rank_of (x # xs) d = (if x = d then Some 0 else map_option Suc (rank_of xs d))"

definition top_of :: "nat \<Rightarrow> delegate_id list \<Rightarrow> delegate_id list" where
  "top_of n ranked_delegates = take n ranked_delegates"

text \<open>The distrusted delegates in the top 200, and the trusted delegates, in rank order.\<close>

definition distrusted_in_top_200 :: "wallet \<Rightarrow> delegate_id list \<Rightarrow> delegate_id list" where
  "distrusted_in_top_200 w ranked_delegates =
     filter (\<lambda>d. d \<in> set (distrusted_delegates w)) (top_of 200 ranked_delegates)"

definition ranked_trusted :: "wallet \<Rightarrow> delegate_id list \<Rightarrow> delegate_id list" where
  "ranked_trusted w ranked_delegates =
     filter (\<lambda>d. d \<in> set (trusted_delegates w)) ranked_delegates"

text \<open>The observed delegate with the highest score; the first of them when scores tie.\<close>

fun highest_score :: "(delegate_id \<times> rat) list \<Rightarrow> (delegate_id \<times> rat) option" where
  "highest_score [] = None"
| "highest_score (x # xs) =
     (case highest_score xs of
        None \<Rightarrow> Some x
      | Some y \<Rightarrow> if snd x < snd y then Some y else Some x)"

text \<open>
  The delegate a new transaction votes for (document, lines 83 to 91):
  \<^enum> if any distrusted delegate is in the top 200 of the ranked delegates, vote against
    the distrusted delegate with the highest current rank;
  \<^enum> if not voting against anyone, vote for the trusted delegate with the lowest rank;
  \<^enum> if there are no trusted delegates, vote for the observed delegate with the highest
    score and less than 1 percent of the vote.
  \<open>vote_share d\<close> is the part of the vote that delegate \<open>d\<close> has. The result is the signed
  identifier, \<open>None\<close> when no rule gives a delegate.
\<close>

definition select_vote ::
  "wallet \<Rightarrow> delegate_id list \<Rightarrow> (delegate_id \<Rightarrow> rat) \<Rightarrow> delegate_id option" where
  "select_vote w ranked_delegates vote_share =
     (case distrusted_in_top_200 w ranked_delegates of
        d # _ \<Rightarrow> Some (- d)
      | [] \<Rightarrow>
          (case rev (ranked_trusted w ranked_delegates) of
             t # _ \<Rightarrow> Some t
           | [] \<Rightarrow>
               map_option fst
                 (highest_score
                    (filter (\<lambda>(d, score). vote_share d < 1 / 100) (observed_delegates w)))))"

text \<open>
  An unspent output of the wallet. The document speaks of the delegate an output votes
  for and of how old it is; the fields are those of the specification's data model:
  owner, amount, the signed delegate identifier it votes with, and \<open>age\<close>, the block
  height at which it was created (the older output is the one with the smaller value).
\<close>

record unspent_output =
  owner :: string
  amount :: nat
  vote :: delegate_id
  age :: nat

text \<open>
  The output votes on a delegate of the distrusted list. The document uses "vote for" for
  the signed field of a transaction as well (line 30), and the specification says the
  vote "references" the delegate: the test is on the magnitude of the identifier.
\<close>

definition votes_on_distrusted :: "wallet \<Rightarrow> unspent_output \<Rightarrow> bool" where
  "votes_on_distrusted w out = (\<bar>vote out\<bar> \<in> set (distrusted_delegates w))"

text \<open>
  \<open>now\<close> is the current block height and \<open>eleven_months\<close> the number of blocks of eleven
  months, which depends on the block interval the network chose.
\<close>

definition older_than_11_months :: "nat \<Rightarrow> nat \<Rightarrow> unspent_output \<Rightarrow> bool" where
  "older_than_11_months eleven_months now out = (age out + eleven_months < now)"

definition must_spend :: "wallet \<Rightarrow> nat \<Rightarrow> nat \<Rightarrow> unspent_output \<Rightarrow> bool" where
  "must_spend w eleven_months now out =
     (votes_on_distrusted w out \<or> older_than_11_months eleven_months now out)"

text \<open>Outputs in the order given, as long as the amount still needed is not covered.\<close>

fun take_until_covered :: "nat \<Rightarrow> unspent_output list \<Rightarrow> unspent_output list" where
  "take_until_covered need [] = []"
| "take_until_covered need (out # outs) =
     (if need = 0 then [] else out # take_until_covered (need - amount out) outs)"

text \<open>
  The inputs of a new transaction that has to pay \<open>need\<close> (document, lines 93 to 101):
  \<^enum> all unspent outputs voting for a delegate in the distrusted list are selected;
  \<^enum> the oldest unspent output is selected first;
  \<^enum> unspent outputs more than 11 months old are included.
\<close>

definition select_inputs ::
  "wallet \<Rightarrow> nat \<Rightarrow> nat \<Rightarrow> nat \<Rightarrow> unspent_output list \<Rightarrow> unspent_output list" where
  "select_inputs w eleven_months now need unspent =
     (let forced = filter (must_spend w eleven_months now) unspent;
          others = sort_key age (filter (\<lambda>out. \<not> must_spend w eleven_months now out) unspent)
      in forced @ take_until_covered (need - sum_list (map amount forced)) others)"


section \<open>Fees (dpos\_delegate\_registration, dpos\_block\_validation)\<close>

text \<open>
  The average revenue per block is taken over the last 100 blocks; \<open>revenues\<close> lists the
  revenue of the previous blocks, the most recent first. The signup fee of a delegate is
  100 times this average (document, line 53), and the last transaction of a block may
  pay the delegate up to 10 percent of it (lines 131 and 154).
\<close>

definition average_revenue :: "nat list \<Rightarrow> rat" where
  "average_revenue revenues =
     (let last_100 = take 100 revenues
      in if last_100 = [] then 0 else of_nat (sum_list last_100) / of_nat (length last_100))"

definition signup_fee :: "rat \<Rightarrow> rat" where
  "signup_fee average = 100 * average"

definition max_delegate_fee :: "rat \<Rightarrow> rat" where
  "max_delegate_fee average = (10 / 100) * average"

section \<open>Vote ledger, delegate registry, ranking and block validation\<close>

text \<open>
  The document states the rules of this part (no delegate above 2 percent of the vote,
  the delegate's payment of at most 10 percent of the average revenue, registration by
  a \<open>claim_name_output\<close> whose \<open>delegate_id\<close> 0 means not eligible); the functions that
  apply a block are not among the source files, and are modelled from the specification
  (sections 3, 4.1 to 4.4 and 4.7).
\<close>

subsection \<open>Vote ledger\<close>

text \<open>
  Modelled from the spec: the vote tally maps the magnitude of a delegate identifier to
  the (positive, negative) sums over all unspent outputs; net votes are positive minus
  negative.
\<close>

type_synonym vote_tally = "delegate_id \<Rightarrow> int \<times> int"

definition net_votes :: "vote_tally \<Rightarrow> delegate_id \<Rightarrow> int" where
  "net_votes t d = fst (t d) - snd (t d)"

text \<open>
  Modelled from the spec: \<open>apply_spend\<close> subtracts the amount of the output from the
  positive or negative bucket of \<open>|vote|\<close> according to the sign. The buckets are
  integers.
\<close>

definition apply_spend :: "unspent_output \<Rightarrow> vote_tally \<Rightarrow> vote_tally" where
  "apply_spend out t =
     (let d = \<bar>vote out\<bar> in
      if 0 < vote out then t(d := (fst (t d) - int (amount out), snd (t d)))
      else if vote out < 0 then t(d := (fst (t d), snd (t d) - int (amount out)))
      else t)"

text \<open>
  Modelled from the spec: \<open>apply_create\<close> adds the amount of the new output to the
  bucket of its vote.
\<close>

definition apply_create :: "unspent_output \<Rightarrow> vote_tally \<Rightarrow> vote_tally" where
  "apply_create out t =
     (let d = \<bar>vote out\<bar> in
      if 0 < vote out then t(d := (fst (t d) + int (amount out), snd (t d)))
      else if vote out < 0 then t(d := (fst (t d), snd (t d) + int (amount out)))
      else t)"

subsection \<open>Delegate registry\<close>

text \<open>
  Modelled from the spec: a delegate has an id, a unique name, data, the heights at
  which it was registered and at which it expires, and whether it has resigned.
\<close>

record delegate =
  did :: delegate_id
  dname :: string
  ddata :: string
  registered_at :: nat
  expires_at :: nat
  resigned :: bool

text \<open>
  The output that registers a name, \<open>bts::blockchain::claim_name_output\<close>, with the three
  fields the document names.
\<close>

record claim_name_output =
  delegate_id :: delegate_id
  name :: string
  data :: string

text \<open>
  Modelled from the spec: the network's constants, which are the block interval in
  seconds and the number of blocks of a month and of a year.
\<close>

record network =
  block_interval :: nat
  blocks_per_month :: nat
  blocks_per_year :: nat

text \<open>
  Modelled from the spec: the committed state. The unspent outputs are kept by
  reference; the total supply is a component that no operation of the specification
  changes.
\<close>

record chain_state =
  unspent :: "nat \<rightharpoonup> unspent_output"
  tally :: vote_tally
  registry :: "delegate list"
  total_supply :: nat
  height :: nat

text \<open>Modelled from the spec: the registry is searched by id and by name.\<close>

definition find_delegate :: "delegate list \<Rightarrow> delegate_id \<Rightarrow> delegate option" where
  "find_delegate reg d = find (\<lambda>e. did e = d) reg"

definition find_name :: "delegate list \<Rightarrow> string \<Rightarrow> delegate option" where
  "find_name reg n = find (\<lambda>e. dname e = n) reg"

text \<open>
  Modelled from the spec: what a claim does to the registry at height \<open>h\<close>.
  A claim with \<open>delegate_id = 0\<close> on a registered name makes that delegate resigned,
  and on a new name registers the name as not eligible; a claim on the id and name of a
  registered delegate renews it, which moves \<open>expires_at\<close> on by a year; any other
  claim registers a new delegate, which expires after a year.
\<close>

definition register_claim :: "network \<Rightarrow> nat \<Rightarrow> claim_name_output \<Rightarrow> delegate list \<Rightarrow> delegate list" where
  "register_claim nw h c reg =
     (if delegate_id c = 0 \<and> find_name reg (name c) \<noteq> None
      then map (\<lambda>e. if dname e = name c then e\<lparr>resigned := True\<rparr> else e) reg
      else if delegate_id c \<noteq> 0 \<and> find_delegate reg (delegate_id c) \<noteq> None
      then map (\<lambda>e. if did e = delegate_id c
                     then e\<lparr>expires_at := expires_at e + blocks_per_year nw\<rparr> else e) reg
      else reg @ [\<lparr>did = delegate_id c, dname = name c, ddata = data c, registered_at = h,
                   expires_at = h + blocks_per_year nw, resigned = (delegate_id c = 0)\<rparr>])"

text \<open>
  Modelled from the spec: whether a claim is allowed, given the fee its transaction
  burns, the average revenue per block and the top 100 of the previous state.
  A registration burns the signup fee; a name and a non-zero id are unique; a renewal is
  free for a delegate of the top 100 in the last month before it expires, and costs the
  signup fee otherwise; a resignation costs nothing.
\<close>

definition claim_allowed ::
  "network \<Rightarrow> rat \<Rightarrow> delegate_id list \<Rightarrow> nat \<Rightarrow> nat \<Rightarrow> delegate list \<Rightarrow> claim_name_output \<Rightarrow> bool" where
  "claim_allowed nw average top_100 h fee reg c =
     (if delegate_id c < 0 then False
      else if delegate_id c = 0 then
        (find_name reg (name c) \<noteq> None \<or> signup_fee average \<le> of_nat fee)
      else
        (case find_delegate reg (delegate_id c) of
           Some e \<Rightarrow>
             dname e = name c \<and> \<not> resigned e
             \<and> ((delegate_id c \<in> set top_100 \<and> expires_at e \<le> h + blocks_per_month nw)
                 \<or> signup_fee average \<le> of_nat fee)
         | None \<Rightarrow> find_name reg (name c) = None \<and> signup_fee average \<le> of_nat fee))"

subsection \<open>Ranking\<close>

text \<open>
  Modelled from the spec: the eligible delegates are the registered ones that have not
  resigned and have not expired; they are ranked by net votes, the most first, then by
  lower id, then by name.
\<close>

definition eligible :: "chain_state \<Rightarrow> delegate \<Rightarrow> bool" where
  "eligible S e = (0 < did e \<and> \<not> resigned e \<and> height S < expires_at e)"

definition ranking :: "chain_state \<Rightarrow> delegate_id list" where
  "ranking S =
     map did (sort_key (\<lambda>e. (- net_votes (tally S) (did e), did e, dname e))
                (filter (eligible S) (registry S)))"

subsection \<open>The 2 percent cap\<close>

text \<open>Modelled from the spec: \<open>VOTE_CAP = 0.02\<close>, as a rational number.\<close>

definition VOTE_CAP :: rat where
  "VOTE_CAP = 2 / 100"

text \<open>Modelled from the spec: the net votes of a delegate are within the cap.\<close>

definition within_cap :: "chain_state \<Rightarrow> delegate_id \<Rightarrow> bool" where
  "within_cap S d = (of_int (net_votes (tally S) d) \<le> VOTE_CAP * of_nat (total_supply S))"

text \<open>
  Modelled from the spec: invariant I2, every eligible delegate has net votes of at most
  0.02 times the total supply.
\<close>

definition I2_holds :: "chain_state \<Rightarrow> bool" where
  "I2_holds S = list_all (\<lambda>e. within_cap S (did e)) (filter (eligible S) (registry S))"

subsection \<open>Effects of a block\<close>

text \<open>
  Modelled from the spec: a block spends outputs and creates outputs. An output either
  carries a vote (and is kept under a reference) or registers a name.
\<close>

datatype tx_output =
    Vote_output nat unspent_output
  | Claim_output claim_name_output

datatype effect = Spend tx_output | Create tx_output

text \<open>
  Modelled from the spec: the change an effect makes to the state at height \<open>h\<close>. The steps
  of a block spend outputs that carry a vote and create outputs of both kinds; no step
  spends a claim, and the specification gives the spending of a claim no operation, so
  the last equation, which no block reaches, leaves the state as it is.
\<close>

fun apply_effect :: "network \<Rightarrow> nat \<Rightarrow> effect \<Rightarrow> chain_state \<Rightarrow> chain_state" where
  "apply_effect nw h (Spend (Vote_output r out)) S =
     S\<lparr>unspent := (unspent S)(r := None), tally := apply_spend out (tally S)\<rparr>"
| "apply_effect nw h (Create (Vote_output r out)) S =
     S\<lparr>unspent := (unspent S)(r \<mapsto> out), tally := apply_create out (tally S)\<rparr>"
| "apply_effect nw h (Create (Claim_output c)) S =
     S\<lparr>registry := register_claim nw h c (registry S)\<rparr>"
| "apply_effect nw h (Spend (Claim_output c)) S = S"

text \<open>Modelled from the spec: the effects of a block are applied in their order.\<close>

definition apply_effects :: "network \<Rightarrow> nat \<Rightarrow> effect list \<Rightarrow> chain_state \<Rightarrow> chain_state" where
  "apply_effects nw h effs S = fold (apply_effect nw h) effs S"

text \<open>
  Modelled from the spec: the inverse of a block swaps spend and create, so each spend
  becomes the create of the same output and each create the spend.
\<close>

fun inverse_effect :: "effect \<Rightarrow> effect" where
  "inverse_effect (Spend out) = Create out"
| "inverse_effect (Create out) = Spend out"

definition inverse_effects :: "effect list \<Rightarrow> effect list" where
  "inverse_effects effs = map inverse_effect effs"


fun bucket_delta :: "effect \<Rightarrow> delegate_id \<Rightarrow> int \<times> int" where
  "bucket_delta (Spend (Vote_output r out)) d =
     (if d = \<bar>vote out\<bar> then (if 0 < vote out then (- int (amount out), 0)
                               else if vote out < 0 then (0, - int (amount out)) else (0, 0))
      else (0, 0))"
| "bucket_delta (Create (Vote_output r out)) d =
     (if d = \<bar>vote out\<bar> then (if 0 < vote out then (int (amount out), 0)
                               else if vote out < 0 then (0, int (amount out)) else (0, 0))
      else (0, 0))"
| "bucket_delta (Create (Claim_output c)) d = (0, 0)"
| "bucket_delta (Spend (Claim_output c)) d = (0, 0)"




subsection \<open>Transactions and blocks\<close>

text \<open>
  Modelled from the spec: a transaction names the outputs it spends, gives the reference,
  owner and amount of each output it creates, carries the one vote of all its outputs
  (\<open>bts::blockchain::transaction#vote\<close>), the names it claims and the fee it burns.
  A block has a slot, a producer, a timestamp, its transactions, and the payment that its
  last transaction makes to the producer.
\<close>

record transaction =
  inputs :: "nat list"
  outputs :: "(nat \<times> string \<times> nat) list"
  tx_vote :: delegate_id
  claims :: "claim_name_output list"
  fee :: nat

record block =
  slot :: nat
  producer :: delegate_id
  timestamp :: nat
  transactions :: "transaction list"
  delegate_fee :: nat

text \<open>
  Modelled from the spec: the validation errors of a block (section 7), the verdict on a
  block or transaction, and the steps of a transaction in the order they are applied:
  its inputs are spent, its vote is checked, its outputs are created, its names are
  claimed.
\<close>

datatype block_error =
    Wrong_producer
  | Bad_timestamp
  | Duplicate_spend nat
  | Unknown_output nat
  | Unknown_delegate delegate_id
  | Bad_registration string
  | Cap_exceeded
  | Bad_fee

datatype verdict = Accepted | Rejected block_error

datatype step =
    Spend_input nat
  | Check_vote delegate_id
  | Create_output delegate_id nat string nat
  | Claim_name nat claim_name_output

definition steps_of :: "transaction \<Rightarrow> step list" where
  "steps_of tx =
     map Spend_input (inputs tx)
     @ [Check_vote (tx_vote tx)]
     @ map (\<lambda>(r, ow, a). Create_output (tx_vote tx) r ow a) (outputs tx)
     @ map (Claim_name (fee tx)) (claims tx)"

text \<open>
  Modelled from the spec: the state a block is applied to while it is validated, which is
  a copy of the committed state, the references spent so far, and the effects so far.
\<close>

record working =
  st :: chain_state
  spent_refs :: "nat list"
  effects :: "effect list"

definition start_working :: "chain_state \<Rightarrow> working" where
  "start_working S = \<lparr>st = S, spent_refs = [], effects = []\<rparr>"

definition record_effect :: "network \<Rightarrow> nat \<Rightarrow> effect \<Rightarrow> working \<Rightarrow> working" where
  "record_effect nw h e W = W\<lparr>st := apply_effect nw h e (st W), effects := effects W @ [e]\<rparr>"

text \<open>
  Modelled from the spec: a vote must name a delegate that is in the registry and has not
  resigned, in either polarity (invariant I4).
\<close>

definition vote_target_ok :: "delegate list \<Rightarrow> delegate_id \<Rightarrow> bool" where
  "vote_target_ok reg v = (v \<noteq> 0 \<and> list_ex (\<lambda>e. did e = \<bar>v\<bar> \<and> \<not> resigned e) reg)"

text \<open>
  Modelled from the spec: one step of a transaction in a block of height \<open>h\<close>. The
  failures are a duplicate spend, a reference to an unknown output, a vote to an unknown
  or resigned delegate and a claim that is not allowed.
\<close>

fun apply_step ::
  "network \<Rightarrow> rat \<Rightarrow> delegate_id list \<Rightarrow> nat \<Rightarrow> working \<Rightarrow> step \<Rightarrow> block_error + working" where
  "apply_step nw average top_100 h W (Spend_input r) =
     (if r \<in> set (spent_refs W) then Inl (Duplicate_spend r)
      else case unspent (st W) r of
             None \<Rightarrow> Inl (Unknown_output r)
           | Some out \<Rightarrow>
               Inr ((record_effect nw h (Spend (Vote_output r out)) W)
                      \<lparr>spent_refs := r # spent_refs W\<rparr>))"
| "apply_step nw average top_100 h W (Check_vote v) =
     (if vote_target_ok (registry (st W)) v then Inr W else Inl (Unknown_delegate v))"
| "apply_step nw average top_100 h W (Create_output v r ow a) =
     Inr (record_effect nw h
            (Create (Vote_output r \<lparr>owner = ow, amount = a, vote = v, age = h\<rparr>)) W)"
| "apply_step nw average top_100 h W (Claim_name f c) =
     (if claim_allowed nw average top_100 h f (registry (st W)) c
      then Inr (record_effect nw h (Create (Claim_output c)) W)
      else Inl (Bad_registration (name c)))"

text \<open>Modelled from the spec: the steps are applied in order, up to the first failure.\<close>

fun apply_steps ::
  "network \<Rightarrow> rat \<Rightarrow> delegate_id list \<Rightarrow> nat \<Rightarrow> working \<Rightarrow> step list \<Rightarrow> block_error + working" where
  "apply_steps nw average top_100 h W [] = Inr W"
| "apply_steps nw average top_100 h W (s # ss) =
     (case apply_step nw average top_100 h W s of
        Inl e \<Rightarrow> Inl e
      | Inr W' \<Rightarrow> apply_steps nw average top_100 h W' ss)"

definition block_steps :: "block \<Rightarrow> step list" where
  "block_steps B = concat (map steps_of (transactions B))"

text \<open>
  Modelled from the spec: the producer of slot \<open>s\<close> is the delegate at rank \<open>s mod 100\<close>
  of the top 100 of the previous state; the timestamp of the block is within one block
  interval of \<open>s * BLOCK_INTERVAL\<close>.
\<close>

definition expected_producer :: "chain_state \<Rightarrow> nat \<Rightarrow> delegate_id option" where
  "expected_producer S s =
     (let top_100 = top_of 100 (ranking S)
      in if s mod 100 < length top_100 then Some (top_100 ! (s mod 100)) else None)"

definition timestamp_ok :: "network \<Rightarrow> block \<Rightarrow> bool" where
  "timestamp_ok nw B =
     (slot B * block_interval nw \<le> timestamp B + block_interval nw
      \<and> timestamp B \<le> slot B * block_interval nw + block_interval nw)"

text \<open>
  Modelled from the spec: the transactions of a block are applied to a copy of the state,
  at the height of the new block, with the average revenue and the top 100 of the
  previous state.
\<close>

definition apply_transactions ::
  "network \<Rightarrow> nat list \<Rightarrow> chain_state \<Rightarrow> block \<Rightarrow> block_error + working" where
  "apply_transactions nw revenues S B =
     apply_steps nw (average_revenue revenues) (top_of 100 (ranking S)) (Suc (height S))
       (start_working S) (block_steps B)"

text \<open>
  The payment to the producer is at most 10 percent of the average revenue per block
  (document, lines 131 and 154).
\<close>

definition fee_ok :: "nat list \<Rightarrow> block \<Rightarrow> bool" where
  "fee_ok revenues B = (of_nat (delegate_fee B) \<le> max_delegate_fee (average_revenue revenues))"

text \<open>
  Modelled from the spec: the block validator, which is not among the source files
  (section 4.7). The producer is verified, then the timestamp,
  then every transaction is applied and the final state is checked against I2, then the
  payment to the producer is checked against its cap. \<open>revenues\<close> are the revenues of the
  previous blocks, the most recent first.
\<close>

definition validate_block ::
  "network \<Rightarrow> nat list \<Rightarrow> chain_state \<Rightarrow> block \<Rightarrow> block_error + chain_state" where
  "validate_block nw revenues S B =
     (if expected_producer S (slot B) \<noteq> Some (producer B) then Inl Wrong_producer
      else if \<not> timestamp_ok nw B then Inl Bad_timestamp
      else case apply_transactions nw revenues S B of
             Inl e \<Rightarrow> Inl e
           | Inr W \<Rightarrow>
               (let S' = (st W)\<lparr>height := Suc (height S)\<rparr>
                in if \<not> I2_holds S' then Inl Cap_exceeded
                   else if \<not> fee_ok revenues B then Inl Bad_fee
                   else Inr S'))"

text \<open>
  Modelled from the spec: pushing a block, which is not among the source files. It commits
  the validated state, or leaves the committed state as it is.
\<close>

definition push_block ::
  "network \<Rightarrow> nat list \<Rightarrow> chain_state \<Rightarrow> block \<Rightarrow> chain_state \<times> verdict" where
  "push_block nw revenues S B =
     (case validate_block nw revenues S B of
        Inl e \<Rightarrow> (S, Rejected e)
      | Inr S' \<Rightarrow> (S', Accepted))"




text \<open>Modelled from the spec: the effects of a block on a state.\<close>

definition block_effects :: "network \<Rightarrow> nat list \<Rightarrow> chain_state \<Rightarrow> block \<Rightarrow> effect list" where
  "block_effects nw revenues S B =
     (case apply_transactions nw revenues S B of Inl e \<Rightarrow> [] | Inr W \<Rightarrow> effects W)"

subsection \<open>A small chain to run the rules on\<close>

text \<open>
  A supply of 1,000,000; delegate 1 has 19,500 net votes and delegate 2 has 1,001, the
  amounts of the two unspent outputs; delegate 4 has resigned. With every one of the last 100 blocks at a revenue
  of 1000, the signup fee is 100,000 and the producer may be paid 100.
\<close>

definition example_network :: network where
  "example_network = \<lparr>block_interval = 10, blocks_per_month = 1000, blocks_per_year = 12000\<rparr>"

definition example_revenues :: "nat list" where
  "example_revenues = replicate 100 1000"

definition example_state :: chain_state where
  "example_state =
     \<lparr>unspent = [1 \<mapsto> \<lparr>owner = ''w'', amount = 501, vote = 2, age = 3\<rparr>,
                 2 \<mapsto> \<lparr>owner = ''w'', amount = 500, vote = 2, age = 4\<rparr>],
      tally = (\<lambda>_. (0, 0))(1 := (19500, 0), 2 := (1001, 0)),
      registry =
        [\<lparr>did = 1, dname = ''D'', ddata = [], registered_at = 0, expires_at = 12000, resigned = False\<rparr>,
         \<lparr>did = 2, dname = ''E'', ddata = [], registered_at = 0, expires_at = 12000, resigned = False\<rparr>,
         \<lparr>did = 4, dname = ''G'', ddata = [], registered_at = 0, expires_at = 12000, resigned = True\<rparr>],
      total_supply = 1000000,
      height = 10\<rparr>"

text \<open>Moving 501 to delegate 1 takes it to 20,001; moving 500 takes it to 20,000.\<close>

definition tx_to_20001 :: transaction where
  "tx_to_20001 = \<lparr>inputs = [1], outputs = [(11, ''w'', 501)], tx_vote = 1, claims = [], fee = 0\<rparr>"

definition tx_to_20000 :: transaction where
  "tx_to_20000 = \<lparr>inputs = [2], outputs = [(12, ''w'', 500)], tx_vote = 1, claims = [], fee = 0\<rparr>"

definition tx_spend_twice :: transaction where
  "tx_spend_twice = \<lparr>inputs = [1, 1], outputs = [(13, ''w'', 1002)], tx_vote = 2, claims = [], fee = 0\<rparr>"

definition tx_unknown_output :: transaction where
  "tx_unknown_output = \<lparr>inputs = [99], outputs = [(14, ''w'', 5)], tx_vote = 2, claims = [], fee = 0\<rparr>"

definition tx_unknown_delegate :: transaction where
  "tx_unknown_delegate = \<lparr>inputs = [1], outputs = [(15, ''w'', 501)], tx_vote = 42, claims = [], fee = 0\<rparr>"

definition tx_resigned_delegate :: transaction where
  "tx_resigned_delegate = \<lparr>inputs = [1], outputs = [(16, ''w'', 501)], tx_vote = - 4, claims = [], fee = 0\<rparr>"

definition example_block :: "transaction list \<Rightarrow> nat \<Rightarrow> block" where
  "example_block txs payment =
     \<lparr>slot = 0, producer = 1, timestamp = 0, transactions = txs, delegate_fee = payment\<rparr>"

text \<open>A wallet and a ranking of 100 delegates, 1 to 100 in this order.\<close>

definition example_ranking :: "delegate_id list" where
  "example_ranking = map int [1..<101]"

definition example_wallet :: wallet where
  "example_wallet =
     \<lparr>trusted_delegates = [6, 81], distrusted_delegates = [300], observed_delegates = [(9, 1)]\<rparr>"

definition wary_wallet :: wallet where
  "wary_wallet =
     \<lparr>trusted_delegates = [6, 81], distrusted_delegates = [50, 3], observed_delegates = []\<rparr>"

definition new_wallet :: wallet where
  "new_wallet = \<lparr>trusted_delegates = [], distrusted_delegates = [], observed_delegates = [(9, 1)]\<rparr>"






section \<open>Theorems\<close>

subsection \<open>RPC client\<close>

lemma call_as_request:
  "json_connection_ptr s = Some c \<Longrightarrow>
   map_option sent (json_connection_ptr (snd (call_as conv s meth args)))
     = Some (sent c @ [\<lparr>method_name = meth, params = args\<rparr>])"
  by (simp add: call_as_def call_def Let_def)

lemma call_as_result:
  "json_connection_ptr s = Some c \<Longrightarrow>
   fst (call_as conv s meth args)
     = (case peer c (sent c @ [\<lparr>method_name = meth, params = args\<rparr>]) of
          None \<Rightarrow> Inl Call_failed
        | Some v \<Rightarrow> (case conv v of None \<Rightarrow> Inl Bad_cast | Some x \<Rightarrow> Inr x))"
  by (simp add: call_as_def call_def Let_def)

text \<open>
  What \<open>validateaddress\<close> does on any connected client: one request is added to those
  sent, it carries the address as its only argument, its method name is \<open>getblock\<close>,
  and the result is the peer's reply to that request read as a boolean.
\<close>

lemma validateaddress_sends_getblock:
  assumes "json_connection_ptr (my c) = Some k"
  shows "map_option sent (json_connection_ptr (my (snd (validateaddress m c a))))
           = Some (sent k @ [\<lparr>method_name = ''getblock'', params = [variant_of_address m a]\<rparr>])"
    and "fst (validateaddress m c a)
           = (case peer k (sent k @ [\<lparr>method_name = ''getblock'', params = [variant_of_address m a]\<rparr>]) of
                None \<Rightarrow> Inl Call_failed
              | Some v \<Rightarrow> (case as_bool m v of None \<Rightarrow> Inl Bad_cast | Some x \<Rightarrow> Inr x))"
  using assms
  by (simp_all add: validateaddress_def forward_def impl_validateaddress_def
        call_as_request call_as_result)

text \<open>
  C1. The claim: \<open>validateaddress a\<close> makes a single JSON-RPC call whose method name is
  \<open>validateaddress\<close>, with \<open>a\<close> as its argument, and returns the boolean result.
  On the code the single call is made and carries the address, but its method name is
  \<open>getblock\<close>: for the address \<open>BTSaddr1\<close>, which the peer would confirm, the
  request sent is \<open>getblock(BTSaddr1)\<close> and the reply, a block header, is not a boolean.
\<close>

theorem validateaddress_calls_getblock:
  "map_option sent (json_connection_ptr (my (snd (validateaddress text_marshal connected_client ''BTSaddr1''))))
     = Some [\<lparr>method_name = ''getblock'', params = [''BTSaddr1'']\<rparr>]
   \<and> fst (validateaddress text_marshal connected_client ''BTSaddr1'') = Inl Bad_cast
   \<and> address_book_peer [\<lparr>method_name = ''validateaddress'', params = [''BTSaddr1'']\<rparr>] = Some ''true''"
  by (simp add: validateaddress_def forward_def impl_validateaddress_def call_as_def call_def
        connected_client_def text_marshal_def address_book_peer_def)

text \<open>
  C10. Every public method of \<open>rpc_client\<close> returns the value returned by the method of
  the same name of the implementation it owns, called on the same arguments; the state
  the implementation is left in is the state \<open>my\<close> holds afterwards.
\<close>

theorem rpc_client_forwards_to_impl:
  "fst (connect_to net c ep) = fst (impl_connect_to net (my c) ep)
   \<and> my (snd (connect_to net c ep)) = snd (impl_connect_to net (my c) ep)
   \<and> fst (login m c username password) = fst (impl_login m (my c) username password)
   \<and> my (snd (login m c username password)) = snd (impl_login m (my c) username password)
   \<and> fst (transfer m c amt addr) = fst (impl_transfer m (my c) amt addr)
   \<and> my (snd (transfer m c amt addr)) = snd (impl_transfer m (my c) amt addr)
   \<and> fst (getbalance m c asset_type) = fst (impl_getbalance m (my c) asset_type)
   \<and> my (snd (getbalance m c asset_type)) = snd (impl_getbalance m (my c) asset_type)
   \<and> fst (get_transaction m c txid) = fst (impl_get_transaction m (my c) txid)
   \<and> my (snd (get_transaction m c txid)) = snd (impl_get_transaction m (my c) txid)
   \<and> fst (getblock m c block_num) = fst (impl_getblock m (my c) block_num)
   \<and> my (snd (getblock m c block_num)) = snd (impl_getblock m (my c) block_num)
   \<and> fst (validateaddress m c addr) = fst (impl_validateaddress m (my c) addr)
   \<and> my (snd (validateaddress m c addr)) = snd (impl_validateaddress m (my c) addr)
   \<and> fst (import_bitcoin_wallet m c wallet_filename password)
       = fst (impl_import_bitcoin_wallet m (my c) wallet_filename password)
   \<and> my (snd (import_bitcoin_wallet m c wallet_filename password))
       = snd (impl_import_bitcoin_wallet m (my c) wallet_filename password)"
  by (simp add: connect_to_def login_def transfer_def getbalance_def get_transaction_def
        getblock_def validateaddress_def import_bitcoin_wallet_def forward_def)

subsection \<open>Schedule\<close>

lemma produce_time_at_round_start:
  "produce_time 10 1000000 0 = Some 1000000
   \<and> produce_time 10 1000000 5 = Some 1000050
   \<and> produce_time 10 1000000 99 = Some 1000990"
  by (simp add: produce_time_def round_time_def current_time_def Let_def)

lemma produce_time_spec_values:
  "produce_time_spec 10 1000000 0 = Some 1001000
   \<and> produce_time_spec 10 1000000 5 = Some 1000050
   \<and> produce_time_spec 10 1000000 99 = Some 1000990
   \<and> produce_time_spec 10 1000500 3 = Some 1001030"
  by (simp add: produce_time_spec_def Let_def)

text \<open>
  The test \<open>PRODUCE_TIME < CURRENT_TIME\<close> compares seconds with a slot number. With a
  block interval of two seconds or more, and once the first round since time 0 is over,
  it never holds: the time given is never moved to the next round.
\<close>

lemma produce_time_never_next_round:
  assumes "2 \<le> interval" and "100 * interval \<le> utc_sec"
  shows "produce_time interval utc_sec rank
           = Some ((round_time utc_sec interval + rank) * interval)"
proof -
  let ?c = "current_time utc_sec interval"
  let ?r = "round_time utc_sec interval"
  have "100 \<le> ?c"
    unfolding current_time_def using assms
    by (metis div_le_mono nonzero_mult_div_cancel_right not_numeral_le_zero)
  then have "1 \<le> ?c div 100" by (simp add: less_eq_div_iff_mult_less_eq)
  then have r: "100 \<le> ?r" unfolding round_time_def by simp
  have "?c = ?r + ?c mod 100" unfolding round_time_def by simp
  moreover have "?c mod 100 < 100" by simp
  ultimately have "?c < ?r + 100" by linarith
  with r have "?c \<le> ?r * 2" by simp
  also have "?r * 2 \<le> (?r + rank) * interval"
    using assms(1) by (simp add: mult_le_mono)
  finally have "\<not> (?r + rank) * interval < ?c" by simp
  with assms(1) show ?thesis by (simp add: produce_time_def Let_def)
qed

text \<open>
  C2. The claim: with a block interval of 10, at time 1,000,000 ranks 0, 5 and 99
  produce at 1,000,000, 1,000,050 and 1,000,990, and at time 1,000,500 rank 3 produces
  at 1,001,030. On the schedule as the document writes it the first three hold, and
  rank 3 at time 1,000,500 is given 1,000,030, a time already past.
\<close>

theorem produce_time_rank3_in_past:
  "produce_time 10 1000500 3 = Some 1000030"
  by (simp add: produce_time_def round_time_def current_time_def Let_def)

subsection \<open>Fees\<close>

lemma sum_payments_bound:
  "\<forall>p \<in> set payments. of_nat p \<le> (m::rat) \<Longrightarrow> of_nat (sum_list payments) \<le> of_nat (length payments) * m"
proof (induction payments)
  case Nil
  then show ?case by simp
next
  case (Cons a payments)
  then have "of_nat a \<le> m" and "of_nat (sum_list payments) \<le> of_nat (length payments) * m"
    by simp_all
  then show ?case by (simp add: algebra_simps)
qed


text \<open>
  C8. With a signup fee of 100 times the average revenue per block and a payment to the
  producing delegate of at most 10 percent of that average per block, and a constant
  positive average: a delegate whose payments add up to the signup fee has produced at
  least 1000 blocks, and 1000 blocks paid at the maximum add up to exactly the fee.
\<close>

theorem signup_fee_break_even:
  "0 < average \<longrightarrow>
     ((\<forall>p\<in>set payments. of_nat p \<le> max_delegate_fee average)
        \<and> signup_fee average \<le> of_nat (sum_list payments) \<longrightarrow> 1000 \<le> length payments)
     \<and> 1000 * max_delegate_fee average = signup_fee average"
proof (intro impI conjI)
  assume pos: "0 < average"
    and pay: "(\<forall>p\<in>set payments. of_nat p \<le> max_delegate_fee average)
        \<and> signup_fee average \<le> of_nat (sum_list payments)"
  then have "of_nat (sum_list payments) \<le> of_nat (length payments) * max_delegate_fee average"
    by (intro sum_payments_bound) simp
  with pay have "100 * average \<le> of_nat (length payments) * ((10 / 100) * average)"
    by (simp add: signup_fee_def max_delegate_fee_def)
  then have "1000 * average \<le> of_nat (length payments) * average" by simp
  with pos have "(1000::rat) \<le> of_nat (length payments)" by simp
  then show "1000 \<le> length payments" by linarith
next
  show "1000 * max_delegate_fee average = signup_fee average"
    by (simp add: signup_fee_def max_delegate_fee_def)
qed


text \<open>The theorem at an average revenue of 1000 and 1000 payments of 100.\<close>

theorem signup_fee_break_even_witness:
  "(0::rat) < 1000
   \<and> list_all (\<lambda>p. of_nat p \<le> max_delegate_fee 1000) (replicate 1000 100)
   \<and> signup_fee 1000 \<le> of_nat (sum_list (replicate 1000 100))
   \<and> 1000 \<le> length (replicate 1000 (100::nat))
   \<and> 1000 * max_delegate_fee 1000 = signup_fee 1000"
  using signup_fee_break_even[of 1000 "replicate 1000 100"]
  by (simp add: max_delegate_fee_def signup_fee_def sum_list_replicate list_all_iff)

subsection \<open>The wallet's vote\<close>

lemma rank_of_SomeD: "rank_of xs d = Some r \<Longrightarrow> r < length xs \<and> xs ! r = d"
  by (induction xs arbitrary: r) (auto split: if_splits)

lemma rank_of_append_notin:
  "d \<notin> set us \<Longrightarrow>
   rank_of (us @ ys) d = (case rank_of ys d of None \<Rightarrow> None | Some r \<Rightarrow> Some (length us + r))"
  by (induction us) (auto split: option.splits)

lemma rank_of_append_in: "d \<in> set us \<Longrightarrow> rank_of (us @ ys) d = rank_of us d"
  by (induction us) auto

lemma rank_of_in: "d \<in> set xs \<Longrightarrow> \<exists>r. rank_of xs d = Some r"
  by (induction xs) auto

lemma rank_of_top_of:
  "d \<in> set (top_of n ranked) \<longleftrightarrow> (\<exists>r<n. rank_of ranked d = Some r)"
proof
  assume "d \<in> set (top_of n ranked)"
  then obtain r where r: "rank_of (take n ranked) d = Some r"
    using rank_of_in unfolding top_of_def by blast
  then have "r < n" using rank_of_SomeD by fastforce
  moreover have "rank_of (take n ranked @ drop n ranked) d = Some r"
    using \<open>d \<in> set (top_of n ranked)\<close> r by (simp add: rank_of_append_in top_of_def del: append_take_drop_id)
  ultimately show "\<exists>r<n. rank_of ranked d = Some r" by auto
next
  assume "\<exists>r<n. rank_of ranked d = Some r"
  then obtain r where "r < n" "rank_of ranked d = Some r" by blast
  then have "r < length ranked" "ranked ! r = d" using rank_of_SomeD by blast+
  then show "d \<in> set (top_of n ranked)"
    unfolding top_of_def using \<open>r < n\<close> by (auto simp: in_set_conv_nth intro!: exI[of _ r])
qed

lemma first_of_filter:
  assumes "filter P xs = d # rest"
  shows "P d \<and> (\<exists>r. rank_of xs d = Some r \<and> (\<forall>d' r'. P d' \<longrightarrow> rank_of xs d' = Some r' \<longrightarrow> r \<le> r'))"
proof -
  from assms obtain us vs where xs: "xs = us @ d # vs" and us: "\<forall>u\<in>set us. \<not> P u" and d: "P d"
    by (auto simp: filter_eq_Cons_iff)
  then have "d \<notin> set us" by blast
  then have r: "rank_of xs d = Some (length us)" by (simp add: xs rank_of_append_notin)
  have "length us \<le> r'" if "P d'" "rank_of xs d' = Some r'" for d' r'
  proof -
    from that(1) us have "d' \<notin> set us" by blast
    with that(2) show ?thesis
      unfolding xs by (auto simp: rank_of_append_notin split: option.splits)
  qed
  with d r show ?thesis by blast
qed

lemma last_of_filter:
  assumes "distinct xs" and "rev (filter P xs) = t # rest"
  shows "P t \<and> (\<exists>r. rank_of xs t = Some r \<and> (\<forall>t' r'. P t' \<longrightarrow> rank_of xs t' = Some r' \<longrightarrow> r' \<le> r))"
proof -
  from assms(2) have "filter P (rev xs) = t # rest" by (simp add: rev_filter)
  then obtain us vs where rx: "rev xs = us @ t # vs" and us: "\<forall>u\<in>set us. \<not> P u" and t: "P t"
    by (auto simp: filter_eq_Cons_iff)
  then have xs: "xs = rev vs @ t # rev us" by (metis rev_rev_ident rev_append rev.simps(2) append.assoc append_Cons append_Nil)
  with assms(1) have "t \<notin> set (rev vs)" by auto
  then have r: "rank_of xs t = Some (length vs)" by (simp add: xs rank_of_append_notin)
  have "r' \<le> length vs" if "P t'" "rank_of xs t' = Some r'" for t' r'
  proof (cases "t' \<in> set (rev vs)")
    case True
    then have "rank_of xs t' = rank_of (rev vs) t'" by (simp add: xs rank_of_append_in)
    with that(2) have "r' < length (rev vs)" using rank_of_SomeD by fastforce
    then show ?thesis by simp
  next
    case False
    from that(2) have "r' < length xs" "xs ! r' = t'" using rank_of_SomeD by blast+
    then have "t' \<in> set xs" by auto
    with False that(1) us have "t' = t" by (auto simp: xs)
    with that(2) r show ?thesis by simp
  qed
  with t r show ?thesis by blast
qed


lemma distrusted_in_top_200_empty:
  "distrusted_in_top_200 w ranked = []
     \<longleftrightarrow> \<not> (\<exists>d\<in>set (distrusted_delegates w). \<exists>r<200. rank_of ranked d = Some r)"
  unfolding distrusted_in_top_200_def filter_empty_conv using rank_of_top_of by blast

lemma ranked_trusted_empty:
  "ranked_trusted w ranked = []
     \<longleftrightarrow> \<not> (\<exists>t\<in>set (trusted_delegates w). \<exists>r. rank_of ranked t = Some r)"
proof -
  have "t \<in> set ranked \<longleftrightarrow> (\<exists>r. rank_of ranked t = Some r)" for t
    using rank_of_in rank_of_SomeD by (metis nth_mem)
  then show ?thesis unfolding ranked_trusted_def filter_empty_conv by blast
qed

lemma select_vote_against:
  assumes "\<exists>d\<in>set (distrusted_delegates w). \<exists>r<200. rank_of ranked d = Some r"
  shows "\<exists>d r. select_vote w ranked share = Some (- d) \<and> d \<in> set (distrusted_delegates w)
             \<and> rank_of ranked d = Some r \<and> r < 200
             \<and> (\<forall>d'\<in>set (distrusted_delegates w). \<forall>r'. rank_of ranked d' = Some r' \<longrightarrow> r \<le> r')"
proof -
  from assms obtain d rest where f: "distrusted_in_top_200 w ranked = d # rest"
    using distrusted_in_top_200_empty by (cases "distrusted_in_top_200 w ranked") auto
  then have sel: "select_vote w ranked share = Some (- d)" by (simp add: select_vote_def)
  from f have "d \<in> set (distrusted_in_top_200 w ranked)" by simp
  then have dd: "d \<in> set (distrusted_delegates w)" and dt: "d \<in> set (top_of 200 ranked)"
    by (simp_all add: distrusted_in_top_200_def)
  from dt obtain r where r: "r < 200" "rank_of ranked d = Some r" using rank_of_top_of by blast
  have "r \<le> r'" if "d' \<in> set (distrusted_delegates w)" "rank_of ranked d' = Some r'" for d' r'
  proof (cases "r' < 200")
    case True
    from f have "filter (\<lambda>d. d \<in> set (distrusted_delegates w)) (take 200 ranked) = d # rest"
      by (simp add: distrusted_in_top_200_def top_of_def)
    from first_of_filter[OF this] obtain k where
      k: "rank_of (take 200 ranked) d = Some k"
         "\<forall>d' r'. d' \<in> set (distrusted_delegates w) \<longrightarrow> rank_of (take 200 ranked) d' = Some r' \<longrightarrow> k \<le> r'"
      by blast
    have in_top: "rank_of (take 200 ranked) x = rank_of ranked x" if "x \<in> set (take 200 ranked)" for x
      using rank_of_append_in[OF that, of "drop 200 ranked"] by simp
    have "d' \<in> set (take 200 ranked)" using True that(2) rank_of_top_of[of d' 200 ranked] by (auto simp: top_of_def)
    then have "rank_of (take 200 ranked) d' = Some r'" using in_top that(2) by simp
    moreover have "rank_of (take 200 ranked) d = Some r" using in_top dt r(2) by (simp add: top_of_def)
    ultimately show ?thesis using k that(1) by auto
  next
    case False
    with r(1) show ?thesis by simp
  qed
  with sel dd r show ?thesis by blast
qed

lemma select_vote_for:
  assumes "distinct ranked"
    and "\<not> (\<exists>d\<in>set (distrusted_delegates w). \<exists>r<200. rank_of ranked d = Some r)"
    and "\<exists>t\<in>set (trusted_delegates w). \<exists>r. rank_of ranked t = Some r"
  shows "\<exists>t r. select_vote w ranked share = Some t \<and> t \<in> set (trusted_delegates w)
             \<and> rank_of ranked t = Some r
             \<and> (\<forall>t'\<in>set (trusted_delegates w). \<forall>r'. rank_of ranked t' = Some r' \<longrightarrow> r' \<le> r)"
proof -
  from assms(2) have no: "distrusted_in_top_200 w ranked = []"
    using distrusted_in_top_200_empty by blast
  from assms(3) have "rev (ranked_trusted w ranked) \<noteq> []"
    using ranked_trusted_empty by simp
  then obtain t rest where f: "rev (ranked_trusted w ranked) = t # rest"
    by (cases "rev (ranked_trusted w ranked)") auto
  with no have sel: "select_vote w ranked share = Some t" by (simp add: select_vote_def)
  from f have "rev (filter (\<lambda>d. d \<in> set (trusted_delegates w)) ranked) = t # rest"
    by (simp add: ranked_trusted_def)
  from last_of_filter[OF assms(1) this] sel show ?thesis by blast
qed


text \<open>
  C5 (as amended). For a ranking without repetitions: if any distrusted delegate is among
  the first 200 of the ranking, the vote is against (the negated identifier of) the
  distrusted delegate of the highest rank; otherwise, if some trusted delegate is
  ranked, the vote is for the trusted delegate of the lowest rank. In particular, with
  the trusted delegates T1 at rank 5 and T2 at rank 80 and no distrusted delegate in the
  top 200, the vote goes to T2.
\<close>

theorem select_vote_rules:
  assumes "distinct ranked"
  shows
    "((\<exists>d\<in>set (distrusted_delegates w). \<exists>r<200. rank_of ranked d = Some r) \<longrightarrow>
        (\<exists>d r. select_vote w ranked share = Some (- d) \<and> d \<in> set (distrusted_delegates w)
             \<and> rank_of ranked d = Some r
             \<and> (\<forall>d'\<in>set (distrusted_delegates w). \<forall>r'. rank_of ranked d' = Some r' \<longrightarrow> r \<le> r')))
     \<and> (\<not> (\<exists>d\<in>set (distrusted_delegates w). \<exists>r<200. rank_of ranked d = Some r)
          \<and> (\<exists>t\<in>set (trusted_delegates w). \<exists>r. rank_of ranked t = Some r) \<longrightarrow>
        (\<exists>t r. select_vote w ranked share = Some t \<and> t \<in> set (trusted_delegates w)
             \<and> rank_of ranked t = Some r
             \<and> (\<forall>t'\<in>set (trusted_delegates w). \<forall>r'. rank_of ranked t' = Some r' \<longrightarrow> r' \<le> r)))
     \<and> (\<forall>T1 T2. trusted_delegates w = [T1, T2] \<and> rank_of ranked T1 = Some 5 \<and> rank_of ranked T2 = Some 80
          \<and> \<not> (\<exists>d\<in>set (distrusted_delegates w). \<exists>r<200. rank_of ranked d = Some r) \<longrightarrow>
        select_vote w ranked share = Some T2)"
proof (intro conjI impI allI)
  assume "\<exists>d\<in>set (distrusted_delegates w). \<exists>r<200. rank_of ranked d = Some r"
  from select_vote_against[OF this, of share]
  show "\<exists>d r. select_vote w ranked share = Some (- d) \<and> d \<in> set (distrusted_delegates w)
             \<and> rank_of ranked d = Some r
             \<and> (\<forall>d'\<in>set (distrusted_delegates w). \<forall>r'. rank_of ranked d' = Some r' \<longrightarrow> r \<le> r')"
    by blast
next
  assume "\<not> (\<exists>d\<in>set (distrusted_delegates w). \<exists>r<200. rank_of ranked d = Some r)
          \<and> (\<exists>t\<in>set (trusted_delegates w). \<exists>r. rank_of ranked t = Some r)"
  then show "\<exists>t r. select_vote w ranked share = Some t \<and> t \<in> set (trusted_delegates w)
             \<and> rank_of ranked t = Some r
             \<and> (\<forall>t'\<in>set (trusted_delegates w). \<forall>r'. rank_of ranked t' = Some r' \<longrightarrow> r' \<le> r)"
    using select_vote_for[OF assms, of w share] by blast
next
  fix T1 T2
  assume a: "trusted_delegates w = [T1, T2] \<and> rank_of ranked T1 = Some 5 \<and> rank_of ranked T2 = Some 80
          \<and> \<not> (\<exists>d\<in>set (distrusted_delegates w). \<exists>r<200. rank_of ranked d = Some r)"
  then have "\<exists>t\<in>set (trusted_delegates w). \<exists>r. rank_of ranked t = Some r" by simp
  with a select_vote_for[OF assms, of w share] obtain t r where
    t: "select_vote w ranked share = Some t" "t \<in> set (trusted_delegates w)" "rank_of ranked t = Some r"
       "\<forall>t'\<in>set (trusted_delegates w). \<forall>r'. rank_of ranked t' = Some r' \<longrightarrow> r' \<le> r"
    by blast
  from t(4) a have "80 \<le> r" by simp
  with t(2,3) a have "t = T2" by auto
  with t(1) show "select_vote w ranked share = Some T2" by simp
qed


text \<open>
  The theorem on a ranking of 100 delegates: a wallet that trusts the delegates at ranks
  5 and 80 and distrusts nobody ranked votes for the one at rank 80; a wallet that distrusts
  the delegates at ranks 2 and 49 votes against the one at rank 2.
\<close>

lemma example_ranking_facts:
  "distinct example_ranking"
  "rank_of example_ranking 6 = Some 5"
  "rank_of example_ranking 81 = Some 80"
  "rank_of example_ranking 300 = None"
  "rank_of example_ranking 3 = Some 2"
  "rank_of example_ranking 50 = Some 49"
  by (simp_all add: example_ranking_def distinct_map) code_simp+

theorem select_vote_rules_witness:
  "distinct example_ranking
   \<and> trusted_delegates example_wallet = [6, 81]
   \<and> rank_of example_ranking 6 = Some 5
   \<and> rank_of example_ranking 81 = Some 80
   \<and> distrusted_in_top_200 example_wallet example_ranking = []
   \<and> select_vote example_wallet example_ranking (\<lambda>d. 0) = Some 81
   \<and> distrusted_in_top_200 wary_wallet example_ranking = [3, 50]
   \<and> select_vote wary_wallet example_ranking (\<lambda>d. 0) = Some (- 3)"
proof -
  have no: "\<not> (\<exists>d\<in>set (distrusted_delegates example_wallet). \<exists>r<200. rank_of example_ranking d = Some r)"
    by (simp add: example_wallet_def example_ranking_facts)
  have t: "trusted_delegates example_wallet = [6, 81]" by (simp add: example_wallet_def)
  note rules = select_vote_rules[OF example_ranking_facts(1)]
  from rules[of example_wallet "\<lambda>d. 0"] no t example_ranking_facts(2,3)
  have 1: "select_vote example_wallet example_ranking (\<lambda>d. 0) = Some 81" by blast
  have yes: "\<exists>d\<in>set (distrusted_delegates wary_wallet). \<exists>r<200. rank_of example_ranking d = Some r"
    by (simp add: wary_wallet_def example_ranking_facts)
  with rules[of wary_wallet "\<lambda>d. 0"] obtain d r where
    d: "select_vote wary_wallet example_ranking (\<lambda>d. 0) = Some (- d)"
       "d \<in> set (distrusted_delegates wary_wallet)" "rank_of example_ranking d = Some r"
       "\<forall>d'\<in>set (distrusted_delegates wary_wallet). \<forall>r'. rank_of example_ranking d' = Some r' \<longrightarrow> r \<le> r'"
    by blast
  from d(4) have "r \<le> 2" by (simp add: wary_wallet_def example_ranking_facts)
  with d(2,3) have "d = 3" by (auto simp: wary_wallet_def example_ranking_facts)
  with d(1) have 2: "select_vote wary_wallet example_ranking (\<lambda>d. 0) = Some (- 3)" by simp
  have 3: "distrusted_in_top_200 example_wallet example_ranking = []"
    using no distrusted_in_top_200_empty by blast
  have 4: "distrusted_in_top_200 wary_wallet example_ranking = [3, 50]"
    unfolding distrusted_in_top_200_def top_of_def wary_wallet_def example_ranking_def by code_simp
  from 1 2 3 4 t example_ranking_facts show ?thesis by simp
qed

text \<open>
  The claim as it was stated has the vote go to a trusted delegate whenever no distrusted
  delegate is in the top 200. A wallet without trusted delegates votes for the observed
  delegate of the highest score that has less than 1 percent of the vote.
\<close>

theorem select_vote_untrusted_counterexample:
  "distrusted_in_top_200 new_wallet [9] = []
   \<and> trusted_delegates new_wallet = []
   \<and> select_vote new_wallet [9] (\<lambda>d. 0) = Some 9"
  by (simp add: new_wallet_def select_vote_def distrusted_in_top_200_def ranked_trusted_def top_of_def)

subsection \<open>The wallet's inputs\<close>

lemma take_until_covered_prefix: "\<exists>k. take_until_covered need outs = take k outs"
proof (induction outs arbitrary: need)
  case Nil
  then show ?case by simp
next
  case (Cons out outs)
  show ?case
  proof (cases "need = 0")
    case True
    then have "take_until_covered need (out # outs) = take 0 (out # outs)" by simp
    then show ?thesis by blast
  next
    case False
    from Cons obtain k where "take_until_covered (need - amount out) outs = take k outs" by blast
    with False have "take_until_covered need (out # outs) = take (Suc k) (out # outs)" by simp
    then show ?thesis by blast
  qed
qed




lemma select_inputs_subset:
  "set (select_inputs w eleven_months now need held) \<subseteq> set held"
proof -
  obtain k where "take_until_covered (need - sum_list (map amount (filter (must_spend w eleven_months now) held)))
       (sort_key age (filter (\<lambda>out. \<not> must_spend w eleven_months now out) held))
     = take k (sort_key age (filter (\<lambda>out. \<not> must_spend w eleven_months now out) held))"
    using take_until_covered_prefix by blast
  then show ?thesis
    by (auto simp: select_inputs_def Let_def dest: in_set_takeD)
qed






subsection \<open>Effects and the tally\<close>


lemma apply_effect_frame [simp]:
  "total_supply (apply_effect nw h e S) = total_supply S"
  "height (apply_effect nw h e S) = height S"
  by (induction nw h e S rule: apply_effect.induct) simp_all

lemma apply_effects_frame [simp]:
  "total_supply (apply_effects nw h effs S) = total_supply S"
  "height (apply_effects nw h effs S) = height S"
  unfolding apply_effects_def by (induction effs arbitrary: S) simp_all

lemma apply_effects_Nil [simp]: "apply_effects nw h [] S = S"
  by (simp add: apply_effects_def)

lemma apply_effects_Cons [simp]:
  "apply_effects nw h (e # effs) S = apply_effects nw h effs (apply_effect nw h e S)"
  by (simp add: apply_effects_def)

lemma apply_effects_append:
  "apply_effects nw h (es @ fs) S = apply_effects nw h fs (apply_effects nw h es S)"
  by (simp add: apply_effects_def)

lemma tally_apply_effect:
  "tally (apply_effect nw h e S) d
     = (fst (tally S d) + fst (bucket_delta e d), snd (tally S d) + snd (bucket_delta e d))"
  by (induction nw h e S rule: apply_effect.induct)
     (simp_all add: apply_spend_def apply_create_def Let_def)

lemma tally_apply_effects:
  "tally (apply_effects nw h effs S) d
     = (fst (tally S d) + sum_list (map (\<lambda>e. fst (bucket_delta e d)) effs),
        snd (tally S d) + sum_list (map (\<lambda>e. snd (bucket_delta e d)) effs))"
  by (induction effs arbitrary: S) (simp_all add: tally_apply_effect)

text \<open>
  Swapping spend and create in a list of effects takes back what the list did to the
  tally, whatever the order of the effects.
\<close>

lemma bucket_delta_inverse:
  "bucket_delta (inverse_effect e) d = (- fst (bucket_delta e d), - snd (bucket_delta e d))"
  by (induction e d rule: bucket_delta.induct) simp_all

lemma sum_bucket_inverse:
  "sum_list (map (\<lambda>e. fst (bucket_delta e d)) (inverse_effects effs))
     = - sum_list (map (\<lambda>e. fst (bucket_delta e d)) effs)"
  "sum_list (map (\<lambda>e. snd (bucket_delta e d)) (inverse_effects effs))
     = - sum_list (map (\<lambda>e. snd (bucket_delta e d)) effs)"
  by (induction effs) (simp_all add: inverse_effects_def bucket_delta_inverse)

lemma tally_round_trip:
  "tally (apply_effects nw h' (inverse_effects effs) (apply_effects nw h effs S)) = tally S"
  by (rule ext) (simp add: tally_apply_effects sum_bucket_inverse)



subsection \<open>Steps of a block\<close>

lemma apply_step_effects:
  assumes "apply_step nw average t h W s = Inr W'"
  shows "\<exists>effs. effects W' = effects W @ effs \<and> st W' = apply_effects nw h effs (st W)"
proof (cases s)
  case (Spend_input r)
  with assms obtain out where "unspent (st W) r = Some out"
    and "W' = (record_effect nw h (Spend (Vote_output r out)) W)\<lparr>spent_refs := r # spent_refs W\<rparr>"
    by (auto split: if_splits option.splits)
  then have "effects W' = effects W @ [Spend (Vote_output r out)]
      \<and> st W' = apply_effects nw h [Spend (Vote_output r out)] (st W)"
    by (simp add: record_effect_def)
  then show ?thesis by blast
next
  case (Check_vote v)
  with assms have "W' = W" by (auto split: if_splits)
  then have "effects W' = effects W @ [] \<and> st W' = apply_effects nw h [] (st W)" by simp
  then show ?thesis by blast
next
  case (Create_output v r ow a)
  with assms have "effects W' = effects W @ [Create (Vote_output r \<lparr>owner = ow, amount = a, vote = v, age = h\<rparr>)]
      \<and> st W' = apply_effects nw h [Create (Vote_output r \<lparr>owner = ow, amount = a, vote = v, age = h\<rparr>)] (st W)"
    by (auto simp: record_effect_def)
  then show ?thesis by blast
next
  case (Claim_name f c)
  with assms have "effects W' = effects W @ [Create (Claim_output c)]
      \<and> st W' = apply_effects nw h [Create (Claim_output c)] (st W)"
    by (auto simp: record_effect_def split: if_splits)
  then show ?thesis by blast
qed

lemma apply_steps_effects:
  "apply_steps nw average t h W ss = Inr W' \<Longrightarrow>
   \<exists>effs. effects W' = effects W @ effs \<and> st W' = apply_effects nw h effs (st W)"
proof (induction ss arbitrary: W)
  case Nil
  then have "effects W' = effects W @ [] \<and> st W' = apply_effects nw h [] (st W)" by simp
  then show ?case by blast
next
  case (Cons s ss)
  then obtain W1 where 1: "apply_step nw average t h W s = Inr W1"
    and 2: "apply_steps nw average t h W1 ss = Inr W'"
    by (auto split: sum.splits)
  from apply_step_effects[OF 1] obtain e1 where
    e1: "effects W1 = effects W @ e1" "st W1 = apply_effects nw h e1 (st W)" by blast
  from Cons.IH[OF 2] obtain e2 where
    e2: "effects W' = effects W1 @ e2" "st W' = apply_effects nw h e2 (st W1)" by blast
  from e1 e2 have "effects W' = effects W @ (e1 @ e2) \<and> st W' = apply_effects nw h (e1 @ e2) (st W)"
    by (simp add: apply_effects_append)
  then show ?case by blast
qed

lemma apply_transactions_effects:
  assumes "apply_transactions nw revenues S B = Inr W"
  shows "st W = apply_effects nw (Suc (height S)) (block_effects nw revenues S B) S"
proof -
  from assms apply_steps_effects obtain effs where
    "effects W = effects (start_working S) @ effs"
    "st W = apply_effects nw (Suc (height S)) effs (st (start_working S))"
    unfolding apply_transactions_def by blast
  then have "effects W = effs" "st W = apply_effects nw (Suc (height S)) effs S"
    by (simp_all add: start_working_def)
  with assms show ?thesis by (simp add: block_effects_def)
qed

text \<open>Every step of a block leaves its effect.\<close>

lemma apply_step_mono:
  "apply_step nw average t h W s = Inr W' \<Longrightarrow> set (effects W) \<subseteq> set (effects W')"
  using apply_step_effects by fastforce

lemma apply_steps_mono:
  "apply_steps nw average t h W ss = Inr W' \<Longrightarrow> set (effects W) \<subseteq> set (effects W')"
  using apply_steps_effects by fastforce

lemma apply_steps_cover:
  assumes "apply_steps nw average t h W ss = Inr W'"
  shows "(Spend_input r \<in> set ss \<longrightarrow> (\<exists>out. Spend (Vote_output r out) \<in> set (effects W')))
       \<and> (Create_output v r ow a \<in> set ss \<longrightarrow>
            Create (Vote_output r \<lparr>owner = ow, amount = a, vote = v, age = h\<rparr>) \<in> set (effects W'))
       \<and> (Claim_name f c \<in> set ss \<longrightarrow> Create (Claim_output c) \<in> set (effects W'))"
  using assms
proof (induction ss arbitrary: W)
  case Nil
  then show ?case by simp
next
  case (Cons s ss)
  then obtain W1 where 1: "apply_step nw average t h W s = Inr W1"
    and 2: "apply_steps nw average t h W1 ss = Inr W'"
    by (auto split: sum.splits)
  note ih = Cons.IH[OF 2]
  note mono = apply_steps_mono[OF 2]
  have a: "\<exists>out. Spend (Vote_output r out) \<in> set (effects W')" if "s = Spend_input r"
  proof -
    from 1 that have "\<exists>out. Spend (Vote_output r out) \<in> set (effects W1)"
      by (auto simp: record_effect_def split: if_splits option.splits)
    with mono show ?thesis by blast
  qed
  have b: "Create (Vote_output r \<lparr>owner = ow, amount = a, vote = v, age = h\<rparr>) \<in> set (effects W')"
    if "s = Create_output v r ow a"
  proof -
    from 1 that have "Create (Vote_output r \<lparr>owner = ow, amount = a, vote = v, age = h\<rparr>) \<in> set (effects W1)"
      by (auto simp: record_effect_def)
    with mono show ?thesis by blast
  qed
  have c: "Create (Claim_output c) \<in> set (effects W')" if "s = Claim_name f c"
  proof -
    from 1 that have "Create (Claim_output c) \<in> set (effects W1)"
      by (auto simp: record_effect_def split: if_splits)
    with mono show ?thesis by blast
  qed
  from ih a b c show ?case by auto
qed


subsection \<open>The cap under a projection\<close>













subsection \<open>Running the small chain\<close>

lemma average_example_revenues: "average_revenue example_revenues = 1000"
  by (simp add: average_revenue_def example_revenues_def sum_list_replicate)

lemmas example_defs =
  example_state_def example_network_def average_example_revenues example_block_def
  tx_to_20001_def tx_to_20000_def

lemmas validator_defs =
  push_block_def validate_block_def expected_producer_def timestamp_ok_def apply_transactions_def
  block_steps_def steps_of_def start_working_def record_effect_def vote_target_ok_def
  I2_holds_def within_cap_def eligible_def ranking_def top_of_def net_votes_def VOTE_CAP_def
  apply_spend_def apply_create_def fee_ok_def max_delegate_fee_def
  claim_allowed_def register_claim_def find_delegate_def find_name_def signup_fee_def



subsection \<open>Block validation\<close>

lemma validate_block_Inr:
  "validate_block nw revenues S B = Inr S' \<longleftrightarrow>
     expected_producer S (slot B) = Some (producer B) \<and> timestamp_ok nw B
     \<and> (\<exists>W. apply_transactions nw revenues S B = Inr W \<and> S' = (st W)\<lparr>height := Suc (height S)\<rparr>
            \<and> I2_holds S' \<and> fee_ok revenues B)"
  by (auto simp: validate_block_def Let_def split: sum.splits)

lemma push_block_Accepted:
  "push_block nw revenues S B = (S', Accepted) \<longleftrightarrow> validate_block nw revenues S B = Inr S'"
  by (auto simp: push_block_def split: sum.splits)

lemma push_block_Rejected:
  "push_block nw revenues S B = (S', Rejected e) \<longleftrightarrow> validate_block nw revenues S B = Inl e \<and> S' = S"
  by (auto simp: push_block_def split: sum.splits)


lemma steps_of_block:
  assumes "tx \<in> set (transactions B)"
  shows "r \<in> set (inputs tx) \<Longrightarrow> Spend_input r \<in> set (block_steps B)"
    and "(r, ow, a) \<in> set (outputs tx) \<Longrightarrow> Create_output (tx_vote tx) r ow a \<in> set (block_steps B)"
    and "c \<in> set (claims tx) \<Longrightarrow> Claim_name (fee tx) c \<in> set (block_steps B)"
  using assms by (auto simp: block_steps_def steps_of_def intro!: bexI[of _ tx] image_eqI)

lemma apply_steps_cover_spend:
  "apply_steps nw average t h W ss = Inr W' \<Longrightarrow> Spend_input r \<in> set ss
     \<Longrightarrow> \<exists>out. Spend (Vote_output r out) \<in> set (effects W')"
  using apply_steps_cover by blast

lemma apply_steps_cover_create:
  "apply_steps nw average t h W ss = Inr W' \<Longrightarrow> Create_output v r ow a \<in> set ss
     \<Longrightarrow> Create (Vote_output r \<lparr>owner = ow, amount = a, vote = v, age = h\<rparr>) \<in> set (effects W')"
  using apply_steps_cover by blast

lemma apply_steps_cover_claim:
  "apply_steps nw average t h W ss = Inr W' \<Longrightarrow> Claim_name f c \<in> set ss
     \<Longrightarrow> Create (Claim_output c) \<in> set (effects W')"
  using apply_steps_cover by blast

lemma block_effects_cover:
  assumes "apply_transactions nw revenues S B = Inr W" and "tx \<in> set (transactions B)"
  shows "(\<forall>r\<in>set (inputs tx). \<exists>out. Spend (Vote_output r out) \<in> set (block_effects nw revenues S B))
       \<and> (\<forall>(r, ow, a)\<in>set (outputs tx).
           Create (Vote_output r \<lparr>owner = ow, amount = a, vote = tx_vote tx, age = Suc (height S)\<rparr>)
             \<in> set (block_effects nw revenues S B))
       \<and> (\<forall>c\<in>set (claims tx). Create (Claim_output c) \<in> set (block_effects nw revenues S B))"
proof (intro conjI ballI)
  have eff: "block_effects nw revenues S B = effects W" using assms(1) by (simp add: block_effects_def)
  note steps = assms(1)[unfolded apply_transactions_def]
  {
    fix r assume "r \<in> set (inputs tx)"
    then have "Spend_input r \<in> set (block_steps B)" by (rule steps_of_block(1)[OF assms(2)])
    from apply_steps_cover_spend[OF steps this]
    show "\<exists>out. Spend (Vote_output r out) \<in> set (block_effects nw revenues S B)"
      unfolding eff .
  next
    fix x assume x: "x \<in> set (outputs tx)"
    obtain r ow a where xe: "x = (r, ow, a)" by (cases x) auto
    with x have "Create_output (tx_vote tx) r ow a \<in> set (block_steps B)"
      using steps_of_block(2)[OF assms(2)] by simp
    from apply_steps_cover_create[OF steps this]
    show "case x of (r, ow, a) \<Rightarrow>
           Create (Vote_output r \<lparr>owner = ow, amount = a, vote = tx_vote tx, age = Suc (height S)\<rparr>)
             \<in> set (block_effects nw revenues S B)"
      unfolding eff xe by simp
  next
    fix c assume "c \<in> set (claims tx)"
    then have "Claim_name (fee tx) c \<in> set (block_steps B)" by (rule steps_of_block(3)[OF assms(2)])
    from apply_steps_cover_claim[OF steps this]
    show "Create (Claim_output c) \<in> set (block_effects nw revenues S B)"
      unfolding eff .
  }
qed

subsection \<open>The claims on the ledger\<close>


lemmas example_txs =
  tx_spend_twice_def tx_unknown_output_def tx_unknown_delegate_def tx_resigned_delegate_def


lemma example_accepted:
  "snd (push_block example_network example_revenues example_state (example_block [tx_to_20000] 100))
     = Accepted"
  by (simp add: example_defs validator_defs)

lemma example_over_cap:
  "push_block example_network example_revenues example_state (example_block [tx_to_20001] 0)
     = (example_state, Rejected Cap_exceeded)"
  by (simp add: example_defs validator_defs)

lemma example_bad_fee:
  "push_block example_network example_revenues example_state (example_block [tx_to_20000] 101)
     = (example_state, Rejected Bad_fee)"
  by (simp add: example_defs validator_defs)

lemma example_otherwise_valid:
  "expected_producer example_state (slot (example_block [tx_to_20000] p))
     = Some (producer (example_block [tx_to_20000] p))"
  "timestamp_ok example_network (example_block [tx_to_20000] p)"
  "\<exists>W. apply_transactions example_network example_revenues example_state (example_block [tx_to_20000] p) = Inr W
     \<and> I2_holds ((st W)\<lparr>height := Suc (height example_state)\<rparr>)"
  by (simp_all add: example_defs validator_defs)

text \<open>
  Each failure the specification lists, on the small chain: the second transaction of
  the block fails (or the producer, or the payment), and the state is the one before.
\<close>

lemma rejections_leave_state:
  "push_block example_network example_revenues example_state
      (example_block [tx_to_20000, tx_spend_twice] 0)
     = (example_state, Rejected (Duplicate_spend 1))"
  "push_block example_network example_revenues example_state
      (example_block [tx_to_20000, tx_unknown_output] 0)
     = (example_state, Rejected (Unknown_output 99))"
  "push_block example_network example_revenues example_state
      (example_block [tx_to_20000, tx_unknown_delegate] 0)
     = (example_state, Rejected (Unknown_delegate 42))"
  "push_block example_network example_revenues example_state
      (example_block [tx_to_20000, tx_resigned_delegate] 0)
     = (example_state, Rejected (Unknown_delegate (- 4)))"
  "push_block example_network example_revenues example_state
      (example_block [tx_to_20000, tx_to_20001] 0)
     = (example_state, Rejected Cap_exceeded)"
  "push_block example_network example_revenues example_state
      ((example_block [tx_to_20000] 0)\<lparr>producer := 2\<rparr>)
     = (example_state, Rejected Wrong_producer)"
  "push_block example_network example_revenues example_state (example_block [tx_to_20000] 101)
     = (example_state, Rejected Bad_fee)"
  by (simp_all add: example_defs example_txs validator_defs)






text \<open>
  C4. Applying a block is atomic. If the block is rejected at any step, the state is
  exactly the state before: the vote tally, the registry and the ranking are unchanged.
  If it is accepted, the new state is the old one with all the effects of the block
  applied, and the effects hold the spend of every input, the creation of every output
  and the claim of every name of every transaction of the block.
\<close>

theorem block_application_atomic:
  "push_block nw revenues S B = (S', v) \<longrightarrow>
     (v \<noteq> Accepted \<longrightarrow>
        S' = S \<and> tally S' = tally S \<and> registry S' = registry S \<and> ranking S' = ranking S)
   \<and> (v = Accepted \<longrightarrow>
        S' = (apply_effects nw (Suc (height S)) (block_effects nw revenues S B) S)
               \<lparr>height := Suc (height S)\<rparr>
        \<and> (\<forall>tx\<in>set (transactions B).
             (\<forall>r\<in>set (inputs tx). \<exists>out. Spend (Vote_output r out) \<in> set (block_effects nw revenues S B))
           \<and> (\<forall>(r, ow, a)\<in>set (outputs tx).
                 Create (Vote_output r \<lparr>owner = ow, amount = a, vote = tx_vote tx, age = Suc (height S)\<rparr>)
                   \<in> set (block_effects nw revenues S B))
           \<and> (\<forall>c\<in>set (claims tx). Create (Claim_output c) \<in> set (block_effects nw revenues S B))))"
proof (intro impI conjI)
  assume p: "push_block nw revenues S B = (S', v)" and "v \<noteq> Accepted"
  then show "S' = S" by (auto simp: push_block_def split: sum.splits)
  then show "tally S' = tally S" "registry S' = registry S" "ranking S' = ranking S" by simp_all
next
  assume p: "push_block nw revenues S B = (S', v)" and "v = Accepted"
  then obtain W where W: "apply_transactions nw revenues S B = Inr W"
    and S': "S' = (st W)\<lparr>height := Suc (height S)\<rparr>"
    by (auto simp: push_block_Accepted validate_block_Inr)
  show "S' = (apply_effects nw (Suc (height S)) (block_effects nw revenues S B) S)
               \<lparr>height := Suc (height S)\<rparr>"
    using S' apply_transactions_effects[OF W] by simp
  show "\<forall>tx\<in>set (transactions B).
             (\<forall>r\<in>set (inputs tx). \<exists>out. Spend (Vote_output r out) \<in> set (block_effects nw revenues S B))
           \<and> (\<forall>(r, ow, a)\<in>set (outputs tx).
                 Create (Vote_output r \<lparr>owner = ow, amount = a, vote = tx_vote tx, age = Suc (height S)\<rparr>)
                   \<in> set (block_effects nw revenues S B))
           \<and> (\<forall>c\<in>set (claims tx). Create (Claim_output c) \<in> set (block_effects nw revenues S B))"
    by (intro ballI) (rule block_effects_cover[OF W])
qed

text \<open>
  The theorem on the small chain: the block that pays the producer too much is rejected
  after all its transactions were applied, and the state is the one before; the block
  that pays 100 is accepted and its state holds the effects.
\<close>

theorem block_application_atomic_witness:
  "push_block example_network example_revenues example_state (example_block [tx_to_20000] 101)
     = (example_state, Rejected Bad_fee)
   \<and> Rejected Bad_fee \<noteq> Accepted
   \<and> snd (push_block example_network example_revenues example_state
            (example_block [tx_to_20000] 100)) = Accepted
   \<and> fst (push_block example_network example_revenues example_state (example_block [tx_to_20000] 100))
       = (apply_effects example_network 11
            (block_effects example_network example_revenues example_state
               (example_block [tx_to_20000] 100)) example_state)\<lparr>height := 11\<rparr>
   \<and> Create (Vote_output 12 \<lparr>owner = ''w'', amount = 500, vote = 1, age = 11\<rparr>)
       \<in> set (block_effects example_network example_revenues example_state
                (example_block [tx_to_20000] 100))"
proof -
  let ?B = "example_block [tx_to_20000] 100"
  let ?P = "push_block example_network example_revenues example_state ?B"
  have acc: "?P = (fst ?P, Accepted)" using example_accepted by (simp add: prod_eq_iff)
  have h: "Suc (height example_state) = 11" by (simp add: example_state_def)
  have tx: "tx_to_20000 \<in> set (transactions ?B)" "(12, ''w'', 500) \<in> set (outputs tx_to_20000)"
    "tx_vote tx_to_20000 = 1"
    by (simp_all add: example_block_def tx_to_20000_def)
  note claim = block_application_atomic[of example_network example_revenues example_state ?B "fst ?P" Accepted]
  from claim acc have 1: "fst ?P = (apply_effects example_network (Suc (height example_state))
            (block_effects example_network example_revenues example_state ?B) example_state)
              \<lparr>height := Suc (height example_state)\<rparr>"
    by blast
  from claim acc tx(1) have "\<forall>(r, ow, a)\<in>set (outputs tx_to_20000).
      Create (Vote_output r \<lparr>owner = ow, amount = a, vote = tx_vote tx_to_20000,
                             age = Suc (height example_state)\<rparr>)
        \<in> set (block_effects example_network example_revenues example_state ?B)"
    by blast
  with tx(2,3) have 2: "Create (Vote_output 12 \<lparr>owner = ''w'', amount = 500, vote = 1, age = 11\<rparr>)
       \<in> set (block_effects example_network example_revenues example_state ?B)"
    unfolding h by fastforce
  from example_bad_fee example_accepted 1 2 show ?thesis unfolding h by simp
qed

text \<open>
  C7. For a block that passes every other check (producer, timestamp, transactions, cap),
  a payment to the producer of at most 10 percent of the average revenue per block over
  the previous 100 blocks is accepted, and a larger payment makes the block rejected,
  the state left as it was; with an average of 1000, a payment of 100 is accepted and
  one of 101 is rejected.
\<close>

theorem delegate_fee_cap:
  "expected_producer S (slot B) = Some (producer B) \<and> timestamp_ok nw B
     \<and> apply_transactions nw revenues S B = Inr W
     \<and> I2_holds ((st W)\<lparr>height := Suc (height S)\<rparr>) \<longrightarrow>
     (of_nat (delegate_fee B) \<le> (10 / 100) * average_revenue revenues \<longrightarrow>
        snd (push_block nw revenues S B) = Accepted)
   \<and> ((10 / 100) * average_revenue revenues < of_nat (delegate_fee B) \<longrightarrow>
        push_block nw revenues S B = (S, Rejected Bad_fee))
   \<and> (average_revenue revenues = 1000 \<longrightarrow>
        (delegate_fee B = 100 \<longrightarrow> snd (push_block nw revenues S B) = Accepted)
      \<and> (delegate_fee B = 101 \<longrightarrow> push_block nw revenues S B = (S, Rejected Bad_fee)))"
  by (simp add: push_block_def validate_block_def Let_def fee_ok_def max_delegate_fee_def)

text \<open>The theorem on the small chain: a payment of 100 is accepted, one of 101 is not.\<close>

theorem delegate_fee_cap_witness:
  "expected_producer example_state (slot (example_block [tx_to_20000] 100))
     = Some (producer (example_block [tx_to_20000] 100))
   \<and> timestamp_ok example_network (example_block [tx_to_20000] 100)
   \<and> average_revenue example_revenues = 1000
   \<and> delegate_fee (example_block [tx_to_20000] 100) = 100
   \<and> snd (push_block example_network example_revenues example_state
            (example_block [tx_to_20000] 100)) = Accepted
   \<and> delegate_fee (example_block [tx_to_20000] 101) = 101
   \<and> push_block example_network example_revenues example_state (example_block [tx_to_20000] 101)
       = (example_state, Rejected Bad_fee)"
proof -
  have fees: "delegate_fee (example_block [tx_to_20000] 100) = 100"
    "delegate_fee (example_block [tx_to_20000] 101) = 101"
    by (simp_all add: example_block_def)
  from example_otherwise_valid(3)[of 100] obtain W where
    W: "apply_transactions example_network example_revenues example_state
          (example_block [tx_to_20000] 100) = Inr W"
       "I2_holds ((st W)\<lparr>height := Suc (height example_state)\<rparr>)"
    by blast
  from delegate_fee_cap[of example_state "example_block [tx_to_20000] 100" example_network
      example_revenues W]
    example_otherwise_valid(1,2)[of 100] W average_example_revenues fees(1)
  have 1: "snd (push_block example_network example_revenues example_state
            (example_block [tx_to_20000] 100)) = Accepted"
    by blast
  from example_otherwise_valid(3)[of 101] obtain W' where
    W': "apply_transactions example_network example_revenues example_state
          (example_block [tx_to_20000] 101) = Inr W'"
       "I2_holds ((st W')\<lparr>height := Suc (height example_state)\<rparr>)"
    by blast
  from delegate_fee_cap[of example_state "example_block [tx_to_20000] 101" example_network
      example_revenues W']
    example_otherwise_valid(1,2)[of 101] W' average_example_revenues fees(2)
  have 2: "push_block example_network example_revenues example_state (example_block [tx_to_20000] 101)
       = (example_state, Rejected Bad_fee)"
    by blast
  from example_otherwise_valid(1,2)[of 100] average_example_revenues fees 1 2 show ?thesis by simp
qed

end
